theory Spec2Isabelle
  imports Complex_Main "HOL-Library.Multiset"
begin

section \<open>JavaScript numbers\<close>

text \<open>
  The fields \<open>id\<close> and \<open>amount\<close> of the class \<open>Expense\<close> and the time value of a
  \<open>Date\<close> are JavaScript numbers. Every finite double is a rational, so a number is
  modelled as a rational, one of the two infinities, or NaN. The two zeros of a double
  are one value here: \<open>===\<close> and \<open><=\<close> do not tell them apart.
\<close>

datatype number = NaN | NegInf | Fin rat | PosInf

text \<open>The operator \<open><=\<close> on two numbers: false as soon as one side is NaN.\<close>

fun num_le :: "number \<Rightarrow> number \<Rightarrow> bool" where
  "num_le NaN _ = False"
| "num_le _ NaN = False"
| "num_le NegInf _ = True"
| "num_le _ PosInf = True"
| "num_le (Fin a) (Fin b) = (a \<le> b)"
| "num_le (Fin a) NegInf = False"
| "num_le PosInf _ = False"

text \<open>The operator \<open>===\<close> on two numbers: NaN is not equal to itself.\<close>

fun strict_eq :: "number \<Rightarrow> number \<Rightarrow> bool" where
  "strict_eq NaN _ = False"
| "strict_eq _ NaN = False"
| "strict_eq a b = (a = b)"

fun isNaN :: "number \<Rightarrow> bool" where
  "isNaN NaN = True"
| "isNaN _ = False"

section \<open>models/expense.ts\<close>

text \<open>
  A \<open>Date\<close> object holds one time value, read by \<open>getTime()\<close>; an invalid date holds
  NaN. The fields \<open>date\<close> and \<open>category\<close> are typed \<open>Date\<close> and \<open>string\<close>, but
  \<open>validate\<close> tests them for absence, so a missing value (\<open>null\<close> or \<open>undefined\<close>)
  is \<open>None\<close>. The field \<open>id\<close> is \<open>exp_id\<close> here, since \<open>id\<close> is the identity
  function of HOL.
\<close>

datatype Date = Date (getTime: number)

record Expense =
  exp_id :: number
  amount :: number
  date :: "Date option"
  category :: "string option"

datatype error = Error string

text \<open>\<open>!this.date || isNaN(this.date.getTime())\<close>: a \<open>Date\<close> object is always truthy.\<close>

definition invalid_date :: "Date option \<Rightarrow> bool" where
  "invalid_date d = (case d of None \<Rightarrow> True | Some t \<Rightarrow> isNaN (getTime t))"

text \<open>\<open>!this.category\<close>: of the strings, only the empty one is falsy.\<close>

definition no_category :: "string option \<Rightarrow> bool" where
  "no_category c = (case c of None \<Rightarrow> True | Some s \<Rightarrow> s = [])"

text \<open>
  \<open>validate()\<close> returns the thrown error on the left or the returned boolean on the
  right, together with the object as the call leaves it.
\<close>

definition validate :: "Expense \<Rightarrow> (error + bool) \<times> Expense" where
  "validate this =
     (if num_le (amount this) (Fin 0)
        then (Inl (Error ''Amount must be greater than zero.''), this)
      else if invalid_date (date this)
        then (Inl (Error ''Invalid date.''), this)
      else if no_category (category this)
        then (Inl (Error ''Category is required.''), this)
      else (Inr True, this))"

section \<open>services/expenseService.ts\<close>

record ExpenseService =
  expenses :: "Expense list"

text \<open>\<open>Array.prototype.findIndex\<close>: the first index whose element passes, or \<open>-1\<close>.\<close>

fun findIndex :: "('a \<Rightarrow> bool) \<Rightarrow> 'a list \<Rightarrow> int" where
  "findIndex p [] = - 1"
| "findIndex p (x # xs) =
     (if p x then 0
      else (let i = findIndex p xs in if i = - 1 then - 1 else i + 1))"

text \<open>
  \<open>Array.prototype.splice(start, deleteCount)\<close> with no items to insert: a negative
  start counts from the end, and the start is clamped to the array. (The name
  \<open>splice\<close> is taken by a list function of HOL.)
\<close>

definition splice_js :: "int \<Rightarrow> nat \<Rightarrow> 'a list \<Rightarrow> 'a list" where
  "splice_js start deleteCount xs =
     (let n = int (length xs);
          s = (if start < 0 then max (n + start) 0 else min start n)
      in take (nat s) xs @ drop (nat s + deleteCount) xs)"

definition addExpense :: "Expense \<Rightarrow> ExpenseService \<Rightarrow> ExpenseService" where
  "addExpense expense this = this\<lparr>expenses := expenses this @ [expense]\<rparr>"

definition updateExpense :: "number \<Rightarrow> Expense \<Rightarrow> ExpenseService \<Rightarrow> bool \<times> ExpenseService" where
  "updateExpense i updatedExpense this =
     (let index = findIndex (\<lambda>exp. strict_eq (exp_id exp) i) (expenses this)
      in if index \<noteq> - 1
         then (True, this\<lparr>expenses := (expenses this)[nat index := updatedExpense]\<rparr>)
         else (False, this))"

definition getExpenses :: "ExpenseService \<Rightarrow> Expense list" where
  "getExpenses this = expenses this"

definition deleteExpense :: "number \<Rightarrow> ExpenseService \<Rightarrow> bool \<times> ExpenseService" where
  "deleteExpense i this =
     (let index = findIndex (\<lambda>exp. strict_eq (exp_id exp) i) (expenses this)
      in if index \<noteq> - 1
         then (True, this\<lparr>expenses := splice_js index 1 (expenses this)\<rparr>)
         else (False, this))"

section \<open>Properties of \<open>findIndex\<close> and \<open>splice\<close>\<close>

lemma findIndex_ge: "- 1 \<le> findIndex p xs"
  by (induction xs) (auto simp: Let_def)

lemma findIndex_none: "(findIndex p xs = - 1) = (\<forall>x \<in> set xs. \<not> p x)"
proof (induction xs)
  case Nil
  show ?case by simp
next
  case (Cons x xs)
  have "findIndex p xs + 1 \<noteq> - 1"
    using findIndex_ge [of p xs] by arith
  with Cons show ?case by (auto simp: Let_def)
qed

lemma findIndex_first:
  "\<forall>y \<in> set pre. \<not> p y \<Longrightarrow> p x \<Longrightarrow> findIndex p (pre @ x # post) = int (length pre)"
proof (induction pre)
  case Nil
  then show ?case by simp
next
  case (Cons a pre)
  then have "findIndex p (pre @ x # post) = int (length pre)" by simp
  with Cons.prems show ?case by (simp add: Let_def)
qed

lemma splice_one: "splice_js (int (length pre)) 1 (pre @ x # post) = pre @ post"
  by (simp add: splice_js_def Let_def)

lemma first_split:
  "\<exists>x \<in> set xs. p x \<Longrightarrow>
   \<exists>pre x post. xs = pre @ x # post \<and> (\<forall>y \<in> set pre. \<not> p y) \<and> p x"
  using split_list_first_prop [of xs p] by blast

text \<open>\<open>===\<close> is equality of numbers that are not NaN.\<close>

lemma strict_eq_iff: "strict_eq a b = (a = b \<and> a \<noteq> NaN)"
  by (cases a; cases b) simp_all

text \<open>So an expense whose id is NaN is never found, whatever id is asked for.\<close>

lemma deleteExpense_NaN: "deleteExpense NaN s = (False, s)"
proof -
  have "findIndex (\<lambda>exp. strict_eq (exp_id exp) NaN) (expenses s) = - 1"
    by (simp add: findIndex_none strict_eq_iff)
  then show ?thesis by (simp add: deleteExpense_def)
qed

text \<open>
  What \<open>deleteExpense\<close> does, in terms of its own test \<open>===\<close>: the first expense
  that passes the test goes, and when none passes nothing changes.
\<close>

lemma deleteExpense_strict_eq:
  "((\<exists>e \<in> set (expenses s). strict_eq (exp_id e) i) \<longrightarrow>
      (\<exists>pre x post. expenses s = pre @ x # post
         \<and> (\<forall>y \<in> set pre. \<not> strict_eq (exp_id y) i)
         \<and> strict_eq (exp_id x) i
         \<and> deleteExpense i s = (True, s\<lparr>expenses := pre @ post\<rparr>)))
   \<and> ((\<forall>e \<in> set (expenses s). \<not> strict_eq (exp_id e) i) \<longrightarrow>
      deleteExpense i s = (False, s))"
proof (intro conjI impI)
  let ?p = "\<lambda>exp. strict_eq (exp_id exp) i"
  assume "\<exists>e \<in> set (expenses s). strict_eq (exp_id e) i"
  then obtain pre x post where
    sp: "expenses s = pre @ x # post" "\<forall>y \<in> set pre. \<not> ?p y" "?p x"
    using first_split [of "expenses s" ?p] by blast
  have idx: "findIndex ?p (expenses s) = int (length pre)"
    using sp findIndex_first [of pre ?p x post] by simp
  have "splice_js (int (length pre)) 1 (expenses s) = pre @ post"
    unfolding sp(1) by (rule splice_one)
  then have "deleteExpense i s = (True, s\<lparr>expenses := pre @ post\<rparr>)"
    by (simp add: deleteExpense_def Let_def idx)
  with sp show "\<exists>pre x post. expenses s = pre @ x # post
         \<and> (\<forall>y \<in> set pre. \<not> strict_eq (exp_id y) i)
         \<and> strict_eq (exp_id x) i
         \<and> deleteExpense i s = (True, s\<lparr>expenses := pre @ post\<rparr>)"
    by blast
next
  assume "\<forall>e \<in> set (expenses s). \<not> strict_eq (exp_id e) i"
  then have "findIndex (\<lambda>exp. strict_eq (exp_id exp) i) (expenses s) = - 1"
    by (simp add: findIndex_none)
  then show "deleteExpense i s = (False, s)"
    by (simp add: deleteExpense_def)
qed

section \<open>Claims about the expense model and service\<close>

text \<open>
  C9 as stated: for every id, if some expense of the list has that id, \<open>deleteExpense\<close>
  removes the first such expense and returns true. It fails for the id NaN: the list
  below holds an expense whose id is NaN, and \<open>deleteExpense(NaN)\<close> returns false and
  leaves the list as it was, since \<open>NaN === NaN\<close> is false.
\<close>

theorem deleteExpense_NaN_counterexample:
  "exp_id \<lparr>exp_id = NaN, amount = Fin 5, date = None, category = None\<rparr> = NaN
   \<and> \<lparr>exp_id = NaN, amount = Fin 5, date = None, category = None\<rparr>
       \<in> set (expenses \<lparr>expenses = [\<lparr>exp_id = NaN, amount = Fin 5, date = None, category = None\<rparr>]\<rparr>)
   \<and> deleteExpense NaN \<lparr>expenses = [\<lparr>exp_id = NaN, amount = Fin 5, date = None, category = None\<rparr>]\<rparr>
       = (False, \<lparr>expenses = [\<lparr>exp_id = NaN, amount = Fin 5, date = None, category = None\<rparr>]\<rparr>)"
  by (simp add: deleteExpense_def)

text \<open>
  C9, amended. For every state of the expense list and every id other than NaN: if some
  expense of the list has that id, \<open>deleteExpense\<close> removes exactly the first such
  expense, leaves every other expense unchanged and in order, and returns true. For
  every id: if no expense has that id, it returns false and the service is exactly
  unchanged. For the id NaN it returns false and leaves the service unchanged, whatever
  the list holds.
\<close>

theorem deleteExpense_first_match_not_NaN:
  "(i \<noteq> NaN \<and> (\<exists>e \<in> set (expenses s). exp_id e = i) \<longrightarrow>
      (\<exists>pre x post. expenses s = pre @ x # post
         \<and> (\<forall>y \<in> set pre. exp_id y \<noteq> i)
         \<and> exp_id x = i
         \<and> deleteExpense i s = (True, s\<lparr>expenses := pre @ post\<rparr>)))
   \<and> ((\<forall>e \<in> set (expenses s). exp_id e \<noteq> i) \<longrightarrow>
      deleteExpense i s = (False, s))
   \<and> deleteExpense NaN s = (False, s)"
proof (intro conjI impI)
  assume h: "i \<noteq> NaN \<and> (\<exists>e \<in> set (expenses s). exp_id e = i)"
  then have eq: "strict_eq a i = (a = i)" for a
    by (auto simp: strict_eq_iff)
  from h have "\<exists>e \<in> set (expenses s). strict_eq (exp_id e) i"
    by (simp add: eq)
  with deleteExpense_strict_eq [of s i]
  show "\<exists>pre x post. expenses s = pre @ x # post
         \<and> (\<forall>y \<in> set pre. exp_id y \<noteq> i)
         \<and> exp_id x = i
         \<and> deleteExpense i s = (True, s\<lparr>expenses := pre @ post\<rparr>)"
    by (simp add: eq)
next
  assume "\<forall>e \<in> set (expenses s). exp_id e \<noteq> i"
  then have "\<forall>e \<in> set (expenses s). \<not> strict_eq (exp_id e) i"
    by (simp add: strict_eq_iff)
  with deleteExpense_strict_eq [of s i] show "deleteExpense i s = (False, s)"
    by blast
next
  show "deleteExpense NaN s = (False, s)" by (rule deleteExpense_NaN)
qed

text \<open>
  Two expenses share the id 2: the first of them goes, the second stays; no expense has
  the id 7.
\<close>

theorem deleteExpense_first_match_not_NaN_witness:
  "deleteExpense (Fin 2)
     \<lparr>expenses =
        [\<lparr>exp_id = Fin 1, amount = Fin 5, date = None, category = None\<rparr>,
         \<lparr>exp_id = Fin 2, amount = Fin 6, date = None, category = None\<rparr>,
         \<lparr>exp_id = Fin 2, amount = Fin 7, date = None, category = None\<rparr>]\<rparr>
   = (True,
      \<lparr>expenses =
        [\<lparr>exp_id = Fin 1, amount = Fin 5, date = None, category = None\<rparr>,
         \<lparr>exp_id = Fin 2, amount = Fin 7, date = None, category = None\<rparr>]\<rparr>)
   \<and> deleteExpense (Fin 7)
     \<lparr>expenses =
        [\<lparr>exp_id = Fin 1, amount = Fin 5, date = None, category = None\<rparr>,
         \<lparr>exp_id = Fin 2, amount = Fin 6, date = None, category = None\<rparr>,
         \<lparr>exp_id = Fin 2, amount = Fin 7, date = None, category = None\<rparr>]\<rparr>
   = (False,
      \<lparr>expenses =
        [\<lparr>exp_id = Fin 1, amount = Fin 5, date = None, category = None\<rparr>,
         \<lparr>exp_id = Fin 2, amount = Fin 6, date = None, category = None\<rparr>,
         \<lparr>exp_id = Fin 2, amount = Fin 7, date = None, category = None\<rparr>]\<rparr>)"
proof -
  let ?e1 = "\<lparr>exp_id = Fin 1, amount = Fin 5, date = None, category = None\<rparr>"
  let ?e2 = "\<lparr>exp_id = Fin 2, amount = Fin 6, date = None, category = None\<rparr>"
  let ?e3 = "\<lparr>exp_id = Fin 2, amount = Fin 7, date = None, category = None\<rparr>"
  let ?s = "\<lparr>expenses = [?e1, ?e2, ?e3]\<rparr>"
  have some: "Fin 2 \<noteq> NaN \<and> (\<exists>e \<in> set (expenses ?s). exp_id e = Fin 2)"
    by simp
  have none: "\<forall>e \<in> set (expenses ?s). exp_id e \<noteq> Fin 7"
    by simp
  from deleteExpense_first_match_not_NaN [of "Fin 2" ?s] some
  obtain pre x post where
    sp: "expenses ?s = pre @ x # post"
        "\<forall>y \<in> set pre. exp_id y \<noteq> Fin 2"
        "exp_id x = Fin 2"
    and del: "deleteExpense (Fin 2) ?s = (True, ?s\<lparr>expenses := pre @ post\<rparr>)"
    by blast
  from sp have "pre = [?e1] \<and> post = [?e3]"
    by (auto simp: Cons_eq_append_conv)
  with del have first: "deleteExpense (Fin 2) ?s = (True, \<lparr>expenses = [?e1, ?e3]\<rparr>)"
    by simp
  from deleteExpense_first_match_not_NaN [of "Fin 7" ?s] none
  have "deleteExpense (Fin 7) ?s = (False, ?s)"
    by blast
  with first show ?thesis by simp
qed

text \<open>
  C10. \<open>validate()\<close> throws exactly when the amount is at most zero (as \<open><=\<close> compares
  it: minus infinity or a finite value not above zero, and not NaN), or the date is
  absent or holds the time value NaN, or the category is absent or empty. In every other
  case it returns true; it never returns false, and it leaves the expense as it was.
\<close>

theorem validate_throws_iff:
  "isl (fst (validate e)) =
     ((amount e = NegInf \<or> (\<exists>r. amount e = Fin r \<and> r \<le> 0))
      \<or> date e = None \<or> (\<exists>d. date e = Some d \<and> getTime d = NaN)
      \<or> category e = None \<or> category e = Some [])
   \<and> (isl (fst (validate e)) \<or> fst (validate e) = Inr True)
   \<and> fst (validate e) \<noteq> Inr False
   \<and> snd (validate e) = e"
proof -
  have le: "num_le (amount e) (Fin 0) = (amount e = NegInf \<or> (\<exists>r. amount e = Fin r \<and> r \<le> 0))"
    by (cases "amount e") simp_all
  have dt: "invalid_date (date e) = (date e = None \<or> (\<exists>d. date e = Some d \<and> getTime d = NaN))"
  proof (cases "date e")
    case None
    then show ?thesis by (simp add: invalid_date_def)
  next
    case (Some d)
    then show ?thesis by (cases "getTime d") (simp_all add: invalid_date_def)
  qed
  have ct: "no_category (category e) = (category e = None \<or> category e = Some [])"
    by (cases "category e") (simp_all add: no_category_def)
  have thrown: "isl (fst (validate e)) =
      (num_le (amount e) (Fin 0) \<or> invalid_date (date e) \<or> no_category (category e))"
    by (simp add: validate_def)
  have ret: "isl (fst (validate e)) \<or> fst (validate e) = Inr True"
    by (simp add: validate_def)
  have nofalse: "fst (validate e) \<noteq> Inr False"
    by (simp add: validate_def)
  have same: "snd (validate e) = e"
    by (simp add: validate_def)
  from thrown le dt ct ret nofalse same show ?thesis by blast
qed

section \<open>Exact decimal amounts (spec, sections 3 and 4.3)\<close>

text \<open>
  The repository holds no code that reads an amount from a row: \<open>Expense.amount\<close> is a
  JavaScript number, and the engine is described in \<open>docs/architecture\<close> and in the
  spec only. Every definition of this section is written from the words of the spec,
  sections 3, 4.3 and 7.
\<close>

text \<open>
  Modelled from the spec: the amount of a record, "an exact decimal value, never a binary
  float", under the rule "preserve input digits, not normalize to two"; no source file
  declares it. It holds the sign, the digits before the point and the digits after the
  point, as the source wrote them, so \<open>20\<close> and \<open>20.00\<close> are two amounts.
\<close>

record decimal =
  negative :: bool
  int_digits :: "nat list"
  frac_digits :: "nat list"

text \<open>
  Modelled from the spec: the error of a row whose amount is malformed, \<open>ParseError\<close>
  of section 7; no source file declares it.
\<close>

datatype row_error = ParseError

text \<open>Modelled from the spec: the ten digit characters of a numeral string, in order.\<close>

definition decimal_digits :: string where
  "decimal_digits = ''0123456789''"

text \<open>Modelled from the spec: where a character first stands in a string, if it does.\<close>

fun position :: "'a \<Rightarrow> 'a list \<Rightarrow> nat option" where
  "position x [] = None"
| "position x (y # ys) = (if x = y then Some 0 else map_option Suc (position x ys))"

text \<open>Modelled from the spec: the value of a digit character of a numeral string.\<close>

definition digit_of :: "char \<Rightarrow> nat option" where
  "digit_of c = position c decimal_digits"

text \<open>Modelled from the spec: the character of a digit, for the decimal representation.\<close>

definition char_of_digit :: "nat \<Rightarrow> char" where
  "char_of_digit n = decimal_digits ! min n 9"

text \<open>
  Modelled from the spec: the digits of a run of digit characters; any other character
  makes the numeral malformed.
\<close>

fun digits_of :: "string \<Rightarrow> nat list option" where
  "digits_of [] = Some []"
| "digits_of (c # cs) =
     (case digit_of c of
        None \<Rightarrow> None
      | Some d \<Rightarrow> (case digits_of cs of None \<Rightarrow> None | Some ds \<Rightarrow> Some (d # ds)))"

text \<open>
  Modelled from the spec: an unsigned numeral string read digit by digit, "amount parsed
  as exact decimal from the source's numeral string": one or more digits, then
  optionally a point and one or more digits. Nothing is rounded or dropped.
\<close>

definition parse_unsigned :: "string \<Rightarrow> (nat list \<times> nat list) option" where
  "parse_unsigned s =
     (let ip = takeWhile (\<lambda>c. c \<noteq> CHR ''.'') s;
          rest = dropWhile (\<lambda>c. c \<noteq> CHR ''.'') s
      in case digits_of ip of
           None \<Rightarrow> None
         | Some ds \<Rightarrow>
             if ds = [] then None
             else (case rest of
                     [] \<Rightarrow> Some (ds, [])
                   | dot # fp \<Rightarrow>
                       (case digits_of fp of
                          None \<Rightarrow> None
                        | Some fs \<Rightarrow> if fs = [] then None else Some (ds, fs))))"

text \<open>
  Modelled from the spec: the amount of a row from its numeral string, with an optional
  minus sign in front; a malformed numeral is a \<open>ParseError\<close> of that row (section 7).
\<close>

definition parse_amount :: "string \<Rightarrow> row_error + decimal" where
  "parse_amount s =
     (case s of
        [] \<Rightarrow> Inl ParseError
      | c # t \<Rightarrow>
          if c = CHR ''-''
          then (case parse_unsigned t of
                  None \<Rightarrow> Inl ParseError
                | Some (ds, fs) \<Rightarrow> Inr \<lparr>negative = True, int_digits = ds, frac_digits = fs\<rparr>)
          else (case parse_unsigned s of
                  None \<Rightarrow> Inl ParseError
                | Some (ds, fs) \<Rightarrow> Inr \<lparr>negative = False, int_digits = ds, frac_digits = fs\<rparr>))"

text \<open>
  Modelled from the spec: the "output decimal representation" of section 8, without the
  sign: the digits before the point, and the point with the digits after it when there
  are any.
\<close>

definition unsigned_text :: "nat list \<Rightarrow> nat list \<Rightarrow> string" where
  "unsigned_text ds fs =
     map char_of_digit ds @ (if fs = [] then [] else CHR ''.'' # map char_of_digit fs)"

text \<open>Modelled from the spec: the "output decimal representation" of an amount.\<close>

definition render :: "decimal \<Rightarrow> string" where
  "render d =
     (if negative d then [CHR ''-''] else [])
     @ unsigned_text (int_digits d) (frac_digits d)"

text \<open>Modelled from the spec: the number that a sequence of decimal digits writes.\<close>

definition digits_value :: "nat list \<Rightarrow> nat" where
  "digits_value ds = foldl (\<lambda>acc d. 10 * acc + d) 0 ds"

text \<open>
  Modelled from the spec: the exact value of an amount, a rational number: the digits
  read as one integer, over ten to the number of digits after the point.
\<close>

definition decimal_value :: "decimal \<Rightarrow> rat" where
  "decimal_value d =
     (if negative d then - 1 else 1)
     * of_nat (digits_value (int_digits d @ frac_digits d)) / 10 ^ length (frac_digits d)"

subsection \<open>Reading and writing digits\<close>

lemma position_nth: "position x ys = Some n \<Longrightarrow> n < length ys \<and> ys ! n = x"
proof (induction ys arbitrary: n)
  case Nil
  then show ?case by simp
next
  case (Cons y ys)
  then show ?case by (auto split: if_splits)
qed

lemma nth_position: "distinct ys \<Longrightarrow> n < length ys \<Longrightarrow> position (ys ! n) ys = Some n"
proof (induction ys arbitrary: n)
  case Nil
  then show ?case by simp
next
  case (Cons y ys)
  then show ?case by (cases n) auto
qed

lemma digit_of_char: "digit_of c = Some n \<Longrightarrow> char_of_digit n = c \<and> n < 10"
  using position_nth [of c decimal_digits n]
  by (simp add: digit_of_def char_of_digit_def) (simp add: decimal_digits_def)

lemma char_of_digit_of: "n < 10 \<Longrightarrow> digit_of (char_of_digit n) = Some n"
  using nth_position [of decimal_digits n]
  by (simp add: digit_of_def char_of_digit_def) (simp add: decimal_digits_def)

lemma digit_not_dot: "digit_of c = Some n \<Longrightarrow> c \<noteq> CHR ''.'' \<and> c \<noteq> CHR ''-''"
  by (auto simp: digit_of_def decimal_digits_def)

lemma digits_of_render:
  "digits_of s = Some ds \<Longrightarrow> map char_of_digit ds = s \<and> (\<forall>n \<in> set ds. n < 10)"
proof (induction s arbitrary: ds)
  case Nil
  then show ?case by simp
next
  case (Cons c cs)
  then show ?case
    by (auto split: option.splits dest: digit_of_char)
qed

lemma render_digits_of:
  "\<forall>n \<in> set ds. n < 10 \<Longrightarrow> digits_of (map char_of_digit ds) = Some ds"
  by (induction ds) (simp_all add: char_of_digit_of)

lemma char_of_digit_not_dot: "n < 10 \<Longrightarrow> char_of_digit n \<noteq> CHR ''.'' \<and> char_of_digit n \<noteq> CHR ''-''"
  using digit_not_dot [OF char_of_digit_of] by blast

lemma parse_unsigned_text:
  assumes "parse_unsigned s = Some (ds, fs)"
  shows "s = unsigned_text ds fs \<and> ds \<noteq> [] \<and> (\<forall>n \<in> set (ds @ fs). n < 10)"
proof -
  let ?P = "\<lambda>c. c \<noteq> CHR ''.''"
  let ?ip = "takeWhile ?P s" and ?rest = "dropWhile ?P s"
  from assms obtain ds' where ip: "digits_of ?ip = Some ds'"
    by (auto simp: parse_unsigned_def Let_def split: option.splits)
  from assms ip have ds: "ds' = ds" "ds \<noteq> []"
    by (auto simp: parse_unsigned_def Let_def split: option.splits if_splits list.splits)
  from digits_of_render [OF ip] ds have ipr: "map char_of_digit ds = ?ip" "\<forall>n \<in> set ds. n < 10"
    by simp_all
  have split: "s = ?ip @ ?rest" by simp
  show ?thesis
  proof (cases ?rest)
    case Nil
    with assms ip ds have "fs = []"
      by (auto simp: parse_unsigned_def Let_def split: option.splits if_splits)
    moreover from Nil have "?ip = s" by simp
    with ipr(1) have "map char_of_digit ds = s" by (rule trans)
    ultimately show ?thesis using ipr(2) ds by (simp add: unsigned_text_def)
  next
    case (Cons dot fp)
    then have "?rest \<noteq> []" by simp
    then have "\<not> ?P (hd ?rest)" by (rule hd_dropWhile)
    with Cons have dot: "dot = CHR ''.''" by simp
    from assms ip ds Cons have fp: "digits_of fp = Some fs" "fs \<noteq> []"
      by (auto simp: parse_unsigned_def Let_def split: option.splits if_splits)
    from digits_of_render [OF fp(1)] have "map char_of_digit fs = fp" "\<forall>n \<in> set fs. n < 10"
      by simp_all
    moreover have "s = ?ip @ dot # fp" using split Cons by simp
    ultimately show ?thesis using ipr ds fp(2) dot by (auto simp: unsigned_text_def)
  qed
qed

lemma takeWhile_stop:
  "\<forall>c \<in> set xs. P c \<Longrightarrow> \<not> P y \<Longrightarrow> takeWhile P (xs @ y # ys) = xs"
  by (induction xs) auto

lemma dropWhile_stop:
  "\<forall>c \<in> set xs. P c \<Longrightarrow> \<not> P y \<Longrightarrow> dropWhile P (xs @ y # ys) = y # ys"
  by (induction xs) auto

lemma unsigned_text_parse:
  assumes "ds \<noteq> []" "\<forall>n \<in> set (ds @ fs). n < 10"
  shows "parse_unsigned (unsigned_text ds fs) = Some (ds, fs)"
proof -
  let ?P = "\<lambda>c. c \<noteq> CHR ''.''"
  let ?i = "map char_of_digit ds" and ?f = "map char_of_digit fs"
  from assms(2) have all: "\<forall>c \<in> set ?i. ?P c"
    by (auto simp: char_of_digit_not_dot)
  from assms(2) have di: "digits_of ?i = Some ds" and df: "digits_of ?f = Some fs"
    by (simp_all add: render_digits_of)
  show ?thesis
  proof (cases "fs = []")
    case True
    with all have tw: "takeWhile ?P (unsigned_text ds fs) = ?i"
      and dw: "dropWhile ?P (unsigned_text ds fs) = []"
      by (simp_all add: unsigned_text_def)
    show ?thesis unfolding parse_unsigned_def Let_def tw dw
      using di assms(1) True by simp
  next
    case False
    with all have tw: "takeWhile ?P (unsigned_text ds fs) = ?i"
      and dw: "dropWhile ?P (unsigned_text ds fs) = CHR ''.'' # ?f"
      by (simp_all add: unsigned_text_def takeWhile_stop dropWhile_stop)
    show ?thesis unfolding parse_unsigned_def Let_def tw dw
      using di df assms(1) False by simp
  qed
qed

lemma render_unsigned:
  "render d = (if negative d then [CHR ''-''] else []) @ unsigned_text (int_digits d) (frac_digits d)"
  by (simp add: render_def)

lemma parse_render:
  assumes "parse_amount s = Inr d"
  shows "render d = s \<and> int_digits d \<noteq> [] \<and> (\<forall>n \<in> set (int_digits d @ frac_digits d). n < 10)"
proof -
  from assms obtain c t where s: "s = c # t"
    by (cases s) (auto simp: parse_amount_def)
  show ?thesis
  proof (cases "c = CHR ''-''")
    case True
    with assms s obtain ds fs where u: "parse_unsigned t = Some (ds, fs)"
      and d: "d = \<lparr>negative = True, int_digits = ds, frac_digits = fs\<rparr>"
      by (auto simp: parse_amount_def split: option.splits)
    from parse_unsigned_text [OF u] d s True show ?thesis
      by (simp add: render_unsigned)
  next
    case False
    with assms s obtain ds fs where u: "parse_unsigned s = Some (ds, fs)"
      and d: "d = \<lparr>negative = False, int_digits = ds, frac_digits = fs\<rparr>"
      by (auto simp: parse_amount_def split: option.splits)
    from parse_unsigned_text [OF u] d show ?thesis
      by (simp add: render_unsigned)
  qed
qed

lemma render_parse:
  assumes "int_digits d \<noteq> []" "\<forall>n \<in> set (int_digits d @ frac_digits d). n < 10"
  shows "parse_amount (render d) = Inr d"
proof -
  let ?u = "unsigned_text (int_digits d) (frac_digits d)"
  note u = unsigned_text_parse [OF assms]
  show ?thesis
  proof (cases "negative d")
    case True
    then have "render d = CHR ''-'' # ?u" by (simp add: render_unsigned)
    with u True show ?thesis by (simp add: parse_amount_def)
  next
    case False
    from assms(1) obtain n ns where ds: "int_digits d = n # ns" by (cases "int_digits d") auto
    with assms(2) have nm: "char_of_digit n \<noteq> CHR ''-''" by (simp add: char_of_digit_not_dot)
    from ds obtain r where r: "?u = char_of_digit n # r" by (simp add: unsigned_text_def)
    from False have "render d = ?u" by (simp add: render_unsigned)
    then have "parse_amount (render d) =
        (case parse_unsigned ?u of
           None \<Rightarrow> Inl ParseError
         | Some (ds, fs) \<Rightarrow> Inr \<lparr>negative = False, int_digits = ds, frac_digits = fs\<rparr>)"
      using nm r by (simp add: parse_amount_def)
    with u False show ?thesis by simp
  qed
qed

lemma not_binary_3768: "(3768 / 100 :: rat) \<noteq> of_int m / 2 ^ e"
proof
  assume "(3768 / 100 :: rat) = of_int m / 2 ^ e"
  then have "(3768 :: rat) * 2 ^ e = 100 * of_int m"
    by (simp add: field_simps)
  then have "(of_int (3768 * 2 ^ e) :: rat) = of_int (100 * m)"
    by simp
  then have eq: "3768 * 2 ^ e = 100 * m"
    by (simp only: of_int_eq_iff)
  have "(5::int) dvd 3768 * 2 ^ e" unfolding eq by simp
  moreover have "coprime (5::int) (2 ^ e)"
    by (simp add: coprime_iff_gcd_eq_1 [symmetric]) 
  ultimately have "(5::int) dvd 3768"
    by (simp add: coprime_dvd_mult_left_iff)
  then show False by simp
qed
subsection \<open>The claim about amounts\<close>

text \<open>
  C1. The amount of a row is an exact decimal that keeps the digits of the source
  numeral: whenever a numeral string is read as an amount, the amount's decimal
  representation is that string, character for character, and every well-formed amount
  is read back from its representation. So \<open>20\<close> yields the amount written \<open>20\<close>, which
  is not the amount that \<open>20.00\<close> yields, and \<open>37.68\<close> yields the amount written
  \<open>37.68\<close>, whose value is exactly 3768/100: a value that no binary fraction, and so no
  binary float, equals.
\<close>

theorem amount_keeps_digits:
  "(parse_amount s = Inr d \<longrightarrow> render d = s)
   \<and> (int_digits d \<noteq> [] \<and> (\<forall>n \<in> set (int_digits d @ frac_digits d). n < 10) \<longrightarrow>
        parse_amount (render d) = Inr d)
   \<and> parse_amount ''20'' = Inr \<lparr>negative = False, int_digits = [2, 0], frac_digits = []\<rparr>
   \<and> render \<lparr>negative = False, int_digits = [2, 0], frac_digits = []\<rparr> = ''20''
   \<and> parse_amount ''20.00'' = Inr \<lparr>negative = False, int_digits = [2, 0], frac_digits = [0, 0]\<rparr>
   \<and> parse_amount ''37.68'' = Inr \<lparr>negative = False, int_digits = [3, 7], frac_digits = [6, 8]\<rparr>
   \<and> render \<lparr>negative = False, int_digits = [3, 7], frac_digits = [6, 8]\<rparr> = ''37.68''
   \<and> decimal_value \<lparr>negative = False, int_digits = [3, 7], frac_digits = [6, 8]\<rparr> = 3768 / 100
   \<and> (\<forall>m e. decimal_value \<lparr>negative = False, int_digits = [3, 7], frac_digits = [6, 8]\<rparr>
          \<noteq> of_int m / 2 ^ e)"
proof -
  have p20: "parse_amount ''20'' = Inr \<lparr>negative = False, int_digits = [2, 0], frac_digits = []\<rparr>"
    by (simp add: parse_amount_def parse_unsigned_def digit_of_def decimal_digits_def)
  have p2000: "parse_amount ''20.00'' = Inr \<lparr>negative = False, int_digits = [2, 0], frac_digits = [0, 0]\<rparr>"
    by (simp add: parse_amount_def parse_unsigned_def digit_of_def decimal_digits_def)
  have p3768: "parse_amount ''37.68'' = Inr \<lparr>negative = False, int_digits = [3, 7], frac_digits = [6, 8]\<rparr>"
    by (simp add: parse_amount_def parse_unsigned_def digit_of_def decimal_digits_def)
  have v: "decimal_value \<lparr>negative = False, int_digits = [3, 7], frac_digits = [6, 8]\<rparr> = 3768 / 100"
    by (simp add: decimal_value_def digits_value_def)
  have nb: "\<forall>m e. decimal_value \<lparr>negative = False, int_digits = [3, 7], frac_digits = [6, 8]\<rparr>
          \<noteq> of_int m / 2 ^ e"
    unfolding v using not_binary_3768 by blast
  from parse_render [of s d] render_parse [of d] parse_render [OF p20] parse_render [OF p3768]
    p20 p2000 p3768 v nb
  show ?thesis by blast
qed
text \<open>A negative amount with a trailing zero: sign and digits come back as written.\<close>

theorem amount_keeps_digits_witness:
  "parse_amount ''-0.50'' = Inr \<lparr>negative = True, int_digits = [0], frac_digits = [5, 0]\<rparr>
   \<and> render \<lparr>negative = True, int_digits = [0], frac_digits = [5, 0]\<rparr> = ''-0.50''
   \<and> parse_amount (render \<lparr>negative = True, int_digits = [0], frac_digits = [5, 0]\<rparr>)
       = Inr \<lparr>negative = True, int_digits = [0], frac_digits = [5, 0]\<rparr>"
proof -
  let ?d = "\<lparr>negative = True, int_digits = [0], frac_digits = [5, 0]\<rparr>"
  have p: "parse_amount ''-0.50'' = Inr ?d"
    by (simp add: parse_amount_def parse_unsigned_def digit_of_def decimal_digits_def)
  have wf: "int_digits ?d \<noteq> [] \<and> (\<forall>n \<in> set (int_digits ?d @ frac_digits ?d). n < 10)"
    by simp
  from amount_keeps_digits [of "''-0.50''" ?d] p have "render ?d = ''-0.50''"
    by blast
  moreover from amount_keeps_digits [of "''-0.50''" ?d] wf have "parse_amount (render ?d) = Inr ?d"
    by blast
  ultimately show ?thesis using p by blast
qed

section \<open>Deduplication of a batch (spec, section 4.6)\<close>

text \<open>
  The repository holds no deduplication code: the data cleaner is described in
  \<open>docs/architecture\<close> and in the spec only. Every definition of this section is
  written from the words of the spec, sections 3, 4.6 and 9.
\<close>

text \<open>
  Modelled from the spec: the transaction time of a record, "a sum type over {date-only,
  date-and-time}" (section 9; \<open>datetime | date\<close> in \<open>Standard_Data_Model.md\<close>), which
  no source file declares. \<open>DateOnly d\<close> is the day number \<open>d\<close>; \<open>DateTime s\<close> is the
  second number \<open>s\<close>, counted from the start of day 0. A date-only value holds no
  time of day.
\<close>

datatype txn_time = is_DateOnly: DateOnly int | is_DateTime: DateTime int

text \<open>
  Modelled from the spec: the date of a transaction time, the "date granularity" that a
  date-and-time value is projected down to.
\<close>

fun date_of :: "txn_time \<Rightarrow> int" where
  "date_of (DateOnly d) = d"
| "date_of (DateTime s) = s div 86400"

text \<open>
  Modelled from the spec: the comparison of two transaction times, "comparison operators
  defined to project the finer value down to date granularity when compared against a
  date-only value"; two date-and-time values compare by the second. (Whether equality
  across the two forms is strict or by value the spec leaves open; this is the
  projection it describes.)
\<close>

fun time_le :: "txn_time \<Rightarrow> txn_time \<Rightarrow> bool" where
  "time_le (DateTime s) (DateTime t) = (s \<le> t)"
| "time_le a b = (date_of a \<le> date_of b)"

text \<open>
  Modelled from the spec: by how many seconds two transaction times differ, under the
  same comparison: two date-and-time values by their seconds, any other pair by whole
  days between their dates.
\<close>

fun seconds_apart :: "txn_time \<Rightarrow> txn_time \<Rightarrow> int" where
  "seconds_apart (DateTime s) (DateTime t) = \<bar>s - t\<bar>"
| "seconds_apart a b = 86400 * \<bar>date_of a - date_of b\<bar>"

text \<open>
  Modelled from the spec: the provisional record the deduplicator receives, which no
  source file declares. It carries what section 4.6 reads: the original row order, the
  transaction time at the precision of the source, the confidence score, and the values
  of the named fields (amount, date, merchant, ...) that \<open>match_fields\<close> selects from.
\<close>

record provisional =
  row_index :: nat
  transaction_time :: txn_time
  confidence_score :: rat
  field_values :: "(string \<times> string) list"

text \<open>
  Modelled from the spec: the deduplication spec of an adapter profile, "ordered set of
  match fields, time-tolerance in seconds"; no source file declares it.
\<close>

record dedup_spec =
  match_fields :: "string list"
  time_tolerance_seconds :: nat

text \<open>
  Modelled from the spec: the values a record has in the match fields, the key that
  "group candidates by the exact-match fields" groups by; a field the record lacks
  reads as absent.
\<close>

definition match_key :: "string list \<Rightarrow> provisional \<Rightarrow> string option list" where
  "match_key mf r = map (map_of (field_values r)) mf"


text \<open>
  Modelled from the spec: "group candidates by the exact-match fields". One group per
  distinct key; inside a group the records keep the row order of the batch.
\<close>

definition group_by_fields :: "string list \<Rightarrow> provisional list \<Rightarrow> provisional list list" where
  "group_by_fields mf rs =
     map (\<lambda>k. filter (\<lambda>r. match_key mf r = k) rs) (remdups (map (match_key mf) rs))"

text \<open>
  Modelled from the spec: "time-sorted candidates". An insertion sort under the
  comparison of transaction times; it is stable, so records that compare equal stay in
  row order.
\<close>

fun insort_time :: "provisional \<Rightarrow> provisional list \<Rightarrow> provisional list" where
  "insort_time x [] = [x]"
| "insort_time x (y # ys) =
     (if time_le (transaction_time x) (transaction_time y) then x # y # ys
      else y # insort_time x ys)"

definition sort_time :: "provisional list \<Rightarrow> provisional list" where
  "sort_time xs = foldr insort_time xs []"

text \<open>
  Modelled from the spec: the merge step of the sweep, which puts a record in front of
  the cluster that the rest of the sequence starts with.
\<close>

fun attach :: "'a \<Rightarrow> 'a list list \<Rightarrow> 'a list list" where
  "attach x [] = [[x]]"
| "attach x (c # cs) = (x # c) # cs"

text \<open>
  Modelled from the spec: "a single-pass sweep over time-sorted candidates merging any
  pair within tolerance ... a sliding tolerance window". A record joins the cluster of
  its successor in the sorted sequence when the two are within the tolerance, and
  closes a cluster otherwise.
\<close>

fun sweep :: "nat \<Rightarrow> provisional list \<Rightarrow> provisional list list" where
  "sweep tol [] = []"
| "sweep tol [x] = [[x]]"
| "sweep tol (x # y # rest) =
     (if seconds_apart (transaction_time x) (transaction_time y) \<le> int tol
      then attach x (sweep tol (y # rest))
      else [x] # sweep tol (y # rest))"

text \<open>
  Modelled from the spec: the order that picks the survivor, "highest confidence_score;
  ties broken by earliest transaction_time, then by original row order".
  \<open>better a b\<close>: record \<open>a\<close> is preferred to record \<open>b\<close>.
\<close>

definition better :: "provisional \<Rightarrow> provisional \<Rightarrow> bool" where
  "better a b =
     (confidence_score b < confidence_score a
      \<or> (confidence_score a = confidence_score b
          \<and> time_le (transaction_time a) (transaction_time b)
          \<and> (\<not> time_le (transaction_time b) (transaction_time a)
              \<or> row_index a < row_index b)))"

text \<open>
  Modelled from the spec: the preferred record among a candidate and a list of further
  records, found in one pass.
\<close>

fun best_of :: "provisional \<Rightarrow> provisional list \<Rightarrow> provisional" where
  "best_of b [] = b"
| "best_of b (x # xs) = best_of (if better x b then x else b) xs"

text \<open>
  Modelled from the spec: what is left of a duplicate group, the surviving record with
  the merged-away duplicates "retained as provenance references on the survivor".
\<close>

record canonical =
  survivor :: provisional
  merged_away :: "provisional list"

text \<open>
  Modelled from the spec: the resolution of one duplicate group into its survivor.
\<close>

fun resolve :: "provisional list \<Rightarrow> canonical list" where
  "resolve [] = []"
| "resolve (x # xs) =
     (let s = best_of x xs in [\<lparr>survivor = s, merged_away = remove1 s (x # xs)\<rparr>])"

text \<open>
  Modelled from the spec: the duplicate groups of a batch, "group candidates by the
  exact-match fields, then within each group run a single-pass sweep over time-sorted
  candidates".
\<close>

definition clusters :: "dedup_spec \<Rightarrow> provisional list \<Rightarrow> provisional list list" where
  "clusters spec rs =
     concat (map (\<lambda>g. sweep (time_tolerance_seconds spec) (sort_time g))
                 (group_by_fields (match_fields spec) rs))"

text \<open>
  Modelled from the spec: the deduplicator, one surviving record per duplicate group.
\<close>

definition dedup :: "dedup_spec \<Rightarrow> provisional list \<Rightarrow> canonical list" where
  "dedup spec rs = concat (map resolve (clusters spec rs))"

subsection \<open>Batches of one precision\<close>

text \<open>
  A batch has one precision when its times are all date-and-time or all date-only. On
  such a batch the comparison and the difference of two times are those of their places
  on one axis of seconds. A batch that mixes the two precisions has no such axis: a
  date-only time is zero seconds from every time of its day.
\<close>

definition same_precision :: "provisional list \<Rightarrow> bool" where
  "same_precision rs =
     ((\<forall>r \<in> set rs. is_DateTime (transaction_time r))
      \<or> (\<forall>r \<in> set rs. is_DateOnly (transaction_time r)))"

text \<open>
  The place of a time on the axis of seconds, used in the proofs only: a date-and-time
  value at its second, a date-only value at the first second of its day.
\<close>

fun axis :: "txn_time \<Rightarrow> int" where
  "axis (DateOnly d) = 86400 * d"
| "axis (DateTime s) = s"

definition place :: "provisional \<Rightarrow> int" where
  "place r = axis (transaction_time r)"

lemma same_precision_subset: "same_precision xs \<Longrightarrow> set ys \<subseteq> set xs \<Longrightarrow> same_precision ys"
  unfolding same_precision_def by blast



lemma seconds_apart_place:
  assumes "same_precision xs" "u \<in> set xs" "v \<in> set xs"
  shows "seconds_apart (transaction_time u) (transaction_time v) = \<bar>place u - place v\<bar>"
proof -
  from assms have "(is_DateTime (transaction_time u) \<and> is_DateTime (transaction_time v))
      \<or> (is_DateOnly (transaction_time u) \<and> is_DateOnly (transaction_time v))"
    unfolding same_precision_def by blast
  then consider (seconds) s t where "transaction_time u = DateTime s" "transaction_time v = DateTime t"
    | (days) d e where "transaction_time u = DateOnly d" "transaction_time v = DateOnly e"
    by (cases "transaction_time u"; cases "transaction_time v") auto
  then show ?thesis
  proof cases
    case seconds
    then show ?thesis by (simp add: place_def)
  next
    case days
    have "\<bar>86400 * d - 86400 * e\<bar> = \<bar>86400 * (d - e)\<bar>"
      by (simp only: right_diff_distrib)
    also have "\<dots> = 86400 * \<bar>d - e\<bar>"
      by (simp only: abs_mult abs_numeral)
    finally have "\<bar>86400 * d - 86400 * e\<bar> = 86400 * \<bar>d - e\<bar>" .
    with days show ?thesis
      by (simp only: place_def axis.simps seconds_apart.simps date_of.simps)
  qed
qed

subsection \<open>Sorting by time\<close>







subsection \<open>The sweep over a time-sorted sequence\<close>




lemma sweep_hd: "\<exists>c cs. sweep tol (x # xs) = (x # c) # cs"
proof (induction xs arbitrary: x)
  case Nil
  show ?case by simp
next
  case (Cons y rest)
  from Cons [of y] obtain c cs where "sweep tol (y # rest) = (y # c) # cs" by blast
  then show ?case by simp
qed



text \<open>
  The next three facts need the sequence to be of one precision and sorted by place;
  then two neighbours are within the tolerance exactly when their places are.
\<close>

lemma neighbours_place:
  assumes "same_precision xs" "x \<in> set xs" "y \<in> set xs" "place x \<le> place y"
  shows "(seconds_apart (transaction_time x) (transaction_time y) \<le> int tol)
           = (place y - place x \<le> int tol)"
  using seconds_apart_place [OF assms(1,2,3)] assms(4) by simp

text \<open>Whatever lies within the tolerance of the first record is in the first cluster.\<close>

lemma sweep_first_cluster:
  "same_precision (x # xs) \<Longrightarrow> sorted (map place (x # xs)) \<Longrightarrow> b \<in> set (x # xs) \<Longrightarrow>
   place b - place x \<le> int tol \<Longrightarrow> b \<in> set (hd (sweep tol (x # xs)))"
proof (induction xs arbitrary: x)
  case Nil
  then show ?case by simp
next
  case (Cons y rest)
  obtain c0 cs where f: "sweep tol (y # rest) = (y # c0) # cs"
    using sweep_hd by blast
  from Cons.prems(1) have sp: "same_precision (y # rest)"
    by (rule same_precision_subset) auto
  from Cons.prems(2) have xy: "place x \<le> place y"
    and srt: "sorted (map place (y # rest))" by simp_all
  have cond: "(seconds_apart (transaction_time x) (transaction_time y) \<le> int tol)
      = (place y - place x \<le> int tol)"
    using neighbours_place [OF Cons.prems(1) _ _ xy] by simp
  show ?case
  proof (cases "b = x")
    case True
    then show ?thesis by (simp add: f)
  next
    case False
    with Cons.prems have b: "b \<in> set (y # rest)" by simp
    from srt b have yb: "place y \<le> place b" by auto
    from xy yb Cons.prems(4) have near: "place y - place x \<le> int tol"
      and "place b - place y \<le> int tol" by arith+
    with Cons.IH [OF sp srt b] have "b \<in> set (hd (sweep tol (y # rest)))" by simp
    then have "b \<in> set (y # c0)" by (simp add: f)
    with near show ?thesis by (simp add: f cond)
  qed
qed



subsection \<open>Groups and clusters of a batch\<close>







subsection \<open>The survivor of a cluster\<close>














subsection \<open>Nothing is lost\<close>







subsection \<open>The two fixtures of the spec\<close>





subsection \<open>The claim about deduplication\<close>


text \<open>
  The survivor order breaks on a mixed batch as well. Rows 0 and 2 below have the times
  23:59:50 and 00:00:10 of day 1, row 1 has the date-only time day 1, all of one
  confidence, and the tolerance puts them in one group. Row 2 survives, being earlier
  than row 0; yet at date level row 1 ties with row 2 on time and has the lower row
  index, so a member of the group beats the survivor.
\<close>

lemma mixed_precision_survivor_is_beaten:
  "map row_index (map survivor
     (dedup \<lparr>match_fields = [], time_tolerance_seconds = 90000\<rparr>
        [\<lparr>row_index = 0, transaction_time = DateTime 172790, confidence_score = 1,
            field_values = []\<rparr>,
         \<lparr>row_index = 1, transaction_time = DateOnly 1, confidence_score = 1,
            field_values = []\<rparr>,
         \<lparr>row_index = 2, transaction_time = DateTime 86410, confidence_score = 1,
            field_values = []\<rparr>])) = [2]
   \<and> better
        \<lparr>row_index = 1, transaction_time = DateOnly 1, confidence_score = 1,
           field_values = []\<rparr>
        \<lparr>row_index = 2, transaction_time = DateTime 86410, confidence_score = 1,
           field_values = []\<rparr>"
  by (simp add: dedup_def clusters_def group_by_fields_def match_key_def sort_time_def
      better_def Let_def)



end
